theory Spec2Isabelle
  imports Main
begin

section \<open>The apartment modal: data\<close>

text \<open>
  The component of \<^verbatim>\<open>src/components/ApartmentModal.tsx\<close> takes a unit record and a
  close callback, keeps two pieces of view state and renders conditionally. The
  numbers of the record are JavaScript numbers; the embedding is polymorphic in
  the number type \<open>'n\<close>, and the primitives of the platform that the component
  calls on numbers (the conversion of a string, the test for NaN and the two
  locale-aware formatters) are collected in a record of functions.

  Strings are byte lists. A character outside ASCII is written as its UTF-8 bytes.
\<close>

record 'n platform =
  Number_of :: "string \<Rightarrow> 'n"
    \<comment> \<open>\<^verbatim>\<open>Number(s)\<close> on a string\<close>
  isNaN :: "'n \<Rightarrow> bool"
    \<comment> \<open>\<^verbatim>\<open>Number.isNaN\<close>\<close>
  NumberFormat :: "'n \<Rightarrow> string"
    \<comment> \<open>\<^verbatim>\<open>new Intl.NumberFormat("en-PK", {style: "currency", currency: "PKR",
        minimumFractionDigits: 0}).format\<close>\<close>
  toLocaleString :: "'n \<Rightarrow> string"
    \<comment> \<open>\<^verbatim>\<open>n.toLocaleString()\<close>\<close>

text \<open>A value of type \<^verbatim>\<open>number | string | null | undefined\<close>.\<close>

datatype 'n amount = Undefined | Null | Num 'n | Str string

text \<open>
  The installment plan is read through \<^verbatim>\<open>as any\<close>, one property at a time; a
  property that the object does not have reads as \<^verbatim>\<open>undefined\<close>.
\<close>

record 'n installmentPlan =
  booking :: "'n amount"
  allotmentConfirmation :: "'n amount"
  monthlyInstallments :: "'n amount"
  halfYearly :: "'n amount"
  onPossession :: "'n amount"
  total :: "'n amount"

text \<open>
  The fields of \<^verbatim>\<open>Apartment\<close> that the component reads, but for \<^verbatim>\<open>id\<close>, which
  only names the heading of the dialog. The type itself is declared elsewhere
  (\<^verbatim>\<open>@/types\<close>); the fields are typed by their use. An optional field is an
  \<open>option\<close>: \<open>None\<close> is \<^verbatim>\<open>undefined\<close> (or \<^verbatim>\<open>null\<close>).
\<close>

record 'n apartment =
  number :: string
  type :: string
  floorId :: string
  status :: string
  bedrooms :: 'n
  bathrooms :: "'n option"
  area :: "'n option"
  price :: "'n amount"
  installmentOptions :: "'n installmentPlan option"
  renders :: "string list option"

text \<open>
  The view state of \<^verbatim>\<open>useState\<close>, and the number of times the callback
  \<^verbatim>\<open>onClose\<close> has been invoked, which is all the component does to its caller.
\<close>

record state =
  currentImageIndex :: int
  lightboxOpen :: bool
  closeCalls :: nat

definition init :: state where
  "init = \<lparr>currentImageIndex = 0, lightboxOpen = False, closeCalls = 0\<rparr>"

definition setCurrentImageIndex :: "(int \<Rightarrow> int) \<Rightarrow> state \<Rightarrow> state" where
  "setCurrentImageIndex f s = s\<lparr>currentImageIndex := f (currentImageIndex s)\<rparr>"

definition setLightboxOpen :: "bool \<Rightarrow> state \<Rightarrow> state" where
  "setLightboxOpen b s = s\<lparr>lightboxOpen := b\<rparr>"

definition onClose :: "state \<Rightarrow> state" where
  "onClose s = s\<lparr>closeCalls := Suc (closeCalls s)\<rparr>"

section \<open>The carousel index\<close>

text \<open>
  The remainder \<^verbatim>\<open>a % b\<close> of JavaScript on integers truncates towards zero: the
  result has the sign of \<open>a\<close>. (For \<open>b = 0\<close> JavaScript gives NaN; every use below
  is guarded by a non-zero length.)
\<close>

definition js_rem :: "int \<Rightarrow> int \<Rightarrow> int" where
  "js_rem a b = sgn a * (\<bar>a\<bar> mod \<bar>b\<bar>)"

text \<open>The two updaters: \<^verbatim>\<open>(i) => (i + 1) % length\<close> and
  \<^verbatim>\<open>(i) => (i - 1 + length) % length\<close>.\<close>

definition next_index :: "nat \<Rightarrow> int \<Rightarrow> int" where
  "next_index len i = js_rem (i + 1) (int len)"

definition prev_index :: "nat \<Rightarrow> int \<Rightarrow> int" where
  "prev_index len i = js_rem (i - 1 + int len) (int len)"

section \<open>The keyboard listener\<close>

text \<open>
  \<^verbatim>\<open>onKey\<close> is three \<^verbatim>\<open>if\<close> statements in sequence, each comparing the key of
  the event with a literal. \<^verbatim>\<open>apartment.renders?.length\<close> is truthy when the array
  is there and its length is not zero.
\<close>

definition onKey :: "'n apartment \<Rightarrow> string \<Rightarrow> state \<Rightarrow> state" where
  "onKey apt key s =
    (let s1 = (if key = ''Escape''
               then (if lightboxOpen s then setLightboxOpen False s else onClose s)
               else s);
         s2 = (case renders apt of
                 None \<Rightarrow> s1
               | Some rs \<Rightarrow>
                   if key = ''ArrowRight'' \<and> length rs \<noteq> 0
                   then setCurrentImageIndex (next_index (length rs)) s1
                   else s1);
         s3 = (case renders apt of
                 None \<Rightarrow> s2
               | Some rs \<Rightarrow>
                   if key = ''ArrowLeft'' \<and> length rs \<noteq> 0
                   then setCurrentImageIndex (prev_index (length rs)) s2
                   else s2)
     in s3)"

section \<open>Classification of the unit\<close>

text \<open>
  \<^verbatim>\<open>toLowerCase\<close> on the ASCII letters; other bytes are left as they are. (The
  words compared against below are ASCII, and no character outside ASCII has one
  of their letters as its lower case.)
\<close>

definition lower_char :: "char \<Rightarrow> char" where
  "lower_char c =
    (case map_of (zip ''ABCDEFGHIJKLMNOPQRSTUVWXYZ'' ''abcdefghijklmnopqrstuvwxyz'') c of
       Some l \<Rightarrow> l
     | None \<Rightarrow> c)"

definition toLowerCase :: "string \<Rightarrow> string" where
  "toLowerCase s = map lower_char s"

definition isCommercial :: "'n apartment \<Rightarrow> bool" where
  "isCommercial apt = (toLowerCase (type apt) \<in> set [''shop'', ''office''])"

definition isStudio :: "'n apartment \<Rightarrow> bool" where
  "isStudio apt = (toLowerCase (type apt) = ''studio'')"

text \<open>
  The component computes the two flags; the three-way classification of the
  specification is read off them.
\<close>

datatype classification = Commercial | Studio | Residential

definition classifyUnit :: "'n apartment \<Rightarrow> classification" where
  "classifyUnit apt =
    (if isCommercial apt then Commercial
     else if isStudio apt then Studio
     else Residential)"

section \<open>What is rendered\<close>

text \<open>
  The elements of the returned tree that are rendered under a condition, or that
  react to a click. \<open>Overlay\<close> is the outer \<^verbatim>\<open>motion.div\<close> of the main modal and
  \<open>Dialog\<close> the panel with \<^verbatim>\<open>role="dialog"\<close> inside it; \<open>LightboxOverlay\<close> is the
  \<^verbatim>\<open>motion.div\<close> of the lightbox, a sibling of \<open>Overlay\<close>.
\<close>

datatype element =
    Overlay | Dialog | CloseButton
  | BedroomLine | BathroomLine | AreaLine | PriceLine
  | BreakdownPanel | ContactPrompt
  | GalleryHeading | Disclaimer | GalleryImage | PrevButton | NextButton | ExpandButton
  | CallToAction
  | LightboxOverlay | LightboxImage | LightboxClose

text \<open>\<^verbatim>\<open>apartment.renders && apartment.renders.length > 0\<close>\<close>

definition gallery_shown :: "'n apartment \<Rightarrow> bool" where
  "gallery_shown apt = (case renders apt of None \<Rightarrow> False | Some rs \<Rightarrow> length rs > 0)"

text \<open>\<^verbatim>\<open>apartment.renders.length > 1\<close>, inside the gallery\<close>

definition navigation_shown :: "'n apartment \<Rightarrow> bool" where
  "navigation_shown apt =
    (case renders apt of None \<Rightarrow> False | Some rs \<Rightarrow> length rs > 0 \<and> length rs > 1)"

text \<open>\<^verbatim>\<open>lightboxOpen && apartment.renders\<close>: an array is truthy, also when empty.\<close>

definition lightbox_shown :: "'n apartment \<Rightarrow> state \<Rightarrow> bool" where
  "lightbox_shown apt s = (lightboxOpen s \<and> renders apt \<noteq> None)"

fun rendered :: "'n apartment \<Rightarrow> state \<Rightarrow> element \<Rightarrow> bool" where
  "rendered apt s Overlay = True"
| "rendered apt s Dialog = True"
| "rendered apt s CloseButton = True"
| "rendered apt s BedroomLine = (\<not> isCommercial apt \<and> \<not> isStudio apt)"
| "rendered apt s BathroomLine = (\<not> isCommercial apt)"
| "rendered apt s AreaLine = True"
| "rendered apt s PriceLine = (\<not> isCommercial apt)"
| "rendered apt s BreakdownPanel = (installmentOptions apt \<noteq> None)"
| "rendered apt s ContactPrompt = (installmentOptions apt = None)"
| "rendered apt s GalleryHeading = gallery_shown apt"
| "rendered apt s Disclaimer = gallery_shown apt"
| "rendered apt s GalleryImage = gallery_shown apt"
| "rendered apt s PrevButton = navigation_shown apt"
| "rendered apt s NextButton = navigation_shown apt"
| "rendered apt s ExpandButton = gallery_shown apt"
| "rendered apt s CallToAction = True"
| "rendered apt s LightboxOverlay = lightbox_shown apt s"
| "rendered apt s LightboxImage = lightbox_shown apt s"
| "rendered apt s LightboxClose = lightbox_shown apt s"

text \<open>The heading of the gallery.\<close>

definition gallery_heading :: "'n apartment \<Rightarrow> string" where
  "gallery_heading apt =
    (if length (case renders apt of None \<Rightarrow> [] | Some rs \<Rightarrow> rs) > 1
     then ''Image Gallery'' else ''Render & Image'')"

section \<open>Pointer events\<close>

text \<open>
  \<^verbatim>\<open>handleBackdropClick\<close> is the click handler of both overlays. Its first
  argument is the test \<^verbatim>\<open>e.target === e.currentTarget\<close>.
\<close>

definition handleBackdropClick :: "bool \<Rightarrow> state \<Rightarrow> state" where
  "handleBackdropClick target_is_current s =
    (if target_is_current
     then (if lightboxOpen s then setLightboxOpen False s else onClose s)
     else s)"

text \<open>The handler that an element carries itself; none for most.\<close>

fun onClick :: "'n apartment \<Rightarrow> element \<Rightarrow> state \<Rightarrow> state" where
  "onClick apt CloseButton s = onClose s"
| "onClick apt GalleryImage s = setLightboxOpen True s"
| "onClick apt ExpandButton s = setLightboxOpen True s"
| "onClick apt PrevButton s =
     (case renders apt of
        None \<Rightarrow> s
      | Some rs \<Rightarrow> setCurrentImageIndex (prev_index (length rs)) s)"
| "onClick apt NextButton s =
     (case renders apt of
        None \<Rightarrow> s
      | Some rs \<Rightarrow> setCurrentImageIndex (next_index (length rs)) s)"
| "onClick apt LightboxClose s = setLightboxOpen False s"
| "onClick apt el s = s"

text \<open>
  A click on an element runs the element's own handler and then bubbles to the
  overlay around it, whose handler sees a target that is not itself. A click on
  an overlay itself (its backdrop) runs \<^verbatim>\<open>handleBackdropClick\<close> with the target
  being the current target.
\<close>

definition is_overlay :: "element \<Rightarrow> bool" where
  "is_overlay el = (el = Overlay \<or> el = LightboxOverlay)"

definition click :: "'n apartment \<Rightarrow> element \<Rightarrow> state \<Rightarrow> state" where
  "click apt el s =
    (if is_overlay el then handleBackdropClick True s
     else handleBackdropClick False (onClick apt el s))"

section \<open>Events and runs\<close>

text \<open>
  A key press reaches the listener on the document in every state. A click reaches
  an element only while the element is rendered.
\<close>

datatype event = KeyDown string | Click element

fun step :: "'n apartment \<Rightarrow> state \<Rightarrow> event \<Rightarrow> state" where
  "step apt s (KeyDown key) = onKey apt key s"
| "step apt s (Click el) = (if rendered apt s el then click apt el s else s)"

fun run :: "'n apartment \<Rightarrow> state \<Rightarrow> event list \<Rightarrow> state" where
  "run apt s [] = s"
| "run apt s (ev # evs) = run apt (step apt s ev) evs"

section \<open>Formatting\<close>

text \<open>
  \<^verbatim>\<open>toNumber\<close>: \<open>None\<close> is the \<^verbatim>\<open>null\<close> it returns. A number is returned as it is
  (NaN too); a string loses its commas and goes through \<^verbatim>\<open>Number\<close>.
\<close>

definition toNumber :: "'n platform \<Rightarrow> 'n amount \<Rightarrow> 'n option" where
  "toNumber P val =
    (case val of
       Undefined \<Rightarrow> None
     | Null \<Rightarrow> None
     | Num n \<Rightarrow> Some n
     | Str str \<Rightarrow>
         if str = [] then None
         else (let parsed = Number_of P (filter (\<lambda>c. c \<noteq> CHR '','') str)
               in if isNaN P parsed then None else Some parsed))"

text \<open>
  \<^verbatim>\<open>formatPrice\<close> (its argument \<^verbatim>\<open>price\<close> is \<open>pr\<close> here). In the branch \<^verbatim>\<open>n == null\<close> the test
  \<^verbatim>\<open>price && typeof price === "string"\<close> holds of the non-empty strings only.
\<close>

definition formatPrice :: "'n platform \<Rightarrow> 'n amount \<Rightarrow> string" where
  "formatPrice P pr =
    (case toNumber P pr of
       None \<Rightarrow>
         (case pr of
            Str str \<Rightarrow> if str \<noteq> [] then str else ''N/A''
          | _ \<Rightarrow> ''N/A'')
     | Some n \<Rightarrow> NumberFormat P n)"

definition formatArea :: "'n platform \<Rightarrow> 'n option \<Rightarrow> string" where
  "formatArea P a =
    (case a of None \<Rightarrow> ''N/A'' | Some n \<Rightarrow> toLocaleString P n @ '' sq ft'')"

text \<open>
  The payment column: the six labelled lines of the breakdown when the record has
  an installment plan, the prompt otherwise.
\<close>

datatype payment = Breakdown "(string \<times> string) list" | Prompt string

definition paymentOptions :: "'n platform \<Rightarrow> 'n apartment \<Rightarrow> payment" where
  "paymentOptions P apt =
    (case installmentOptions apt of
       Some io \<Rightarrow>
         Breakdown
           [(''Booking:'', formatPrice P (booking io)),
            (''Allotment Confirmation:'', formatPrice P (allotmentConfirmation io)),
            (''Monthly Installments:'', formatPrice P (monthlyInstallments io)),
            (''Half Yearly:'', formatPrice P (halfYearly io)),
            (''On Possession:'', formatPrice P (onPossession io)),
            (''Total:'', formatPrice P (total io))]
     | None \<Rightarrow> Prompt ''Contact us for payment options and financing details.'')"

subsection \<open>What the JavaScript runtime fixes\<close>

text \<open>
  The conversion \<^verbatim>\<open>Number\<close> and the formatter of \<^verbatim>\<open>Intl.NumberFormat\<close> are
  primitives of the JavaScript runtime and of its locale data; they are no code
  of the repository. Below they are written out where the language and the locale
  data of \<^verbatim>\<open>en-PK\<close> fix them in a way that needs no floating point: on the whole
  amounts, on the strings of decimal digits and on the strings that no numeric
  literal can be. Everywhere else they stay parameters.

  A number is NaN, or \<open>Fin k\<close>, the number whose value is the natural number \<open>k\<close>,
  or one of the other numbers, whose type is left open. \<open>Fin k\<close> is meant for \<open>k\<close>
  up to \<^verbatim>\<open>Number.MAX_SAFE_INTEGER\<close>: each of these is a number of JavaScript.
\<close>

typedecl other

datatype number = NaN | Fin nat | Other other

definition MAX_SAFE_INTEGER :: nat where
  "MAX_SAFE_INTEGER = 9007199254740991"

definition digit_value :: "char \<Rightarrow> nat" where
  "digit_value c = (of_char c :: nat) - 48"

definition is_digit :: "char \<Rightarrow> bool" where
  "is_digit c = (48 \<le> (of_char c :: nat) \<and> (of_char c :: nat) \<le> 57)"

definition decimal_value :: "string \<Rightarrow> nat" where
  "decimal_value str = foldl (\<lambda>a c. 10 * a + digit_value c) 0 str"

text \<open>
  The letters that occur in no numeric literal: a literal is made of digits,
  signs, a point, an exponent mark \<^verbatim>\<open>e\<close>, the word \<^verbatim>\<open>Infinity\<close>, the prefixes
  \<^verbatim>\<open>0x\<close>, \<^verbatim>\<open>0o\<close>, \<^verbatim>\<open>0b\<close> in either case and the hexadecimal digits \<^verbatim>\<open>a\<close> to \<^verbatim>\<open>f\<close>
  in either case, within white space.
\<close>

definition never_numeric :: "char \<Rightarrow> bool" where
  "never_numeric c = (c \<in> set ''ghjklmpqrsuvwzGHJKLMNPQRSTUVWYZ'')"

text \<open>
  \<^verbatim>\<open>Number\<close> on a string. A string of decimal digits is its value (the empty
  string is zero), as a \<open>Fin\<close> while the value is a safe integer. A string with a
  letter that no numeric literal has is NaN. Every other string (signs, points,
  exponents, white space, other radixes, longer digit strings) is left to the
  parameter.
\<close>

definition Number_string :: "(string \<Rightarrow> number) \<Rightarrow> string \<Rightarrow> number" where
  "Number_string other_number str =
    (if list_all is_digit str \<and> decimal_value str \<le> MAX_SAFE_INTEGER
     then Fin (decimal_value str)
     else if list_ex never_numeric str then NaN
     else other_number str)"

text \<open>The decimal digits of a natural number.\<close>

definition digit_char :: "nat \<Rightarrow> char" where
  "digit_char d = ''0123456789'' ! d"

fun digits :: "nat \<Rightarrow> string" where
  "digits n =
    (if n < 10 then [digit_char n]
     else digits (n div 10) @ [digit_char (n mod 10)])"

declare digits.simps [simp del]

text \<open>
  Grouping: a comma after every third digit, counted from the right (\<open>group3\<close>
  works on the reversed digits).
\<close>

fun group3 :: "string \<Rightarrow> string" where
  "group3 (a # b # c # d # ds) = a # b # c # CHR '','' # group3 (d # ds)"
| "group3 ds = ds"

definition grouped :: "nat \<Rightarrow> string" where
  "grouped n = rev (group3 (rev (digits n)))"

text \<open>The no-break space U+00A0 and the rupee sign U+20A8, in UTF-8.\<close>

definition no_break_space :: string where
  "no_break_space = [CHR 0xC2, CHR 0xA0]"

definition rupee_sign :: string where
  "rupee_sign = [CHR 0xE2, CHR 0x82, CHR 0xA8]"

text \<open>
  The formatter of \<^verbatim>\<open>new Intl.NumberFormat("en-PK", {style: "currency", currency:
  "PKR", minimumFractionDigits: 0})\<close>. In the locale \<^verbatim>\<open>en-PK\<close> the symbol of the
  currency is \<^verbatim>\<open>Rs\<close>, set off from a digit that follows by a no-break space; the
  digits are grouped by three; a whole amount has no fraction digits. NaN is
  printed right after the symbol. The other numbers (negative, fractional,
  infinite, beyond the safe integers) are left to the parameter.
\<close>

definition format_en_PK :: "(number \<Rightarrow> string) \<Rightarrow> number \<Rightarrow> string" where
  "format_en_PK other_format n =
    (case n of
       NaN \<Rightarrow> ''RsNaN''
     | Fin k \<Rightarrow>
         if k \<le> MAX_SAFE_INTEGER then ''Rs'' @ no_break_space @ grouped k
         else other_format n
     | Other x \<Rightarrow> other_format n)"

text \<open>
  The platform, for each choice of the three parameters: the conversion of the
  remaining strings, the format of the remaining numbers, and
  \<^verbatim>\<open>toLocaleString\<close>, which follows the default locale of the host.
\<close>

definition en_PK ::
  "(string \<Rightarrow> number) \<Rightarrow> (number \<Rightarrow> string) \<Rightarrow> (number \<Rightarrow> string) \<Rightarrow>
   number platform" where
  "en_PK other_number other_format locale_string =
    \<lparr>Number_of = Number_string other_number,
     isNaN = (\<lambda>n. case n of NaN \<Rightarrow> True | Fin k \<Rightarrow> False | Other x \<Rightarrow> False),
     NumberFormat = format_en_PK other_format,
     toLocaleString = locale_string\<rparr>"

section \<open>Notions of the specification, and two sample records\<close>

text \<open>An index is valid for a sequence of the given length.\<close>

definition in_range :: "nat \<Rightarrow> int \<Rightarrow> bool" where
  "in_range len i = (0 \<le> i \<and> i < int len)"

text \<open>A field of the installment plan is absent.\<close>

definition absent :: "'n amount \<Rightarrow> bool" where
  "absent v = (v = Undefined \<or> v = Null)"

text \<open>
  Two characters are the same letter in either case, and two strings are the same
  up to the case of their letters.
\<close>

definition case_variant :: "char \<Rightarrow> char \<Rightarrow> bool" where
  "case_variant c d =
    (c = d \<or>
     (c, d) \<in> set (zip ''ABCDEFGHIJKLMNOPQRSTUVWXYZ'' ''abcdefghijklmnopqrstuvwxyz'') \<or>
     (d, c) \<in> set (zip ''ABCDEFGHIJKLMNOPQRSTUVWXYZ'' ''abcdefghijklmnopqrstuvwxyz''))"

definition same_ignoring_case :: "string \<Rightarrow> string \<Rightarrow> bool" where
  "same_ignoring_case t u = list_all2 case_variant t u"

text \<open>A residential unit with three renders and no installment plan.\<close>

definition flat_A101 :: "number apartment" where
  "flat_A101 =
    \<lparr>number = ''A-101'', type = ''2 Bed'', floorId = ''first'',
     status = ''available'', bedrooms = Fin 2, bathrooms = Some (Fin 2),
     area = Some (Fin 1200), price = Num (Fin 1250000), installmentOptions = None,
     renders = Some [''/renders/a101-1.png'', ''/renders/a101-2.png'',
                     ''/renders/a101-3.png'']\<rparr>"

text \<open>A shop without renders, with an installment plan that has no fields.\<close>

definition shop_G3 :: "number apartment" where
  "shop_G3 =
    \<lparr>number = ''G-3'', type = ''Shop'', floorId = ''ground'',
     status = ''sold'', bedrooms = Fin 0, bathrooms = None,
     area = None, price = Undefined,
     installmentOptions = Some \<lparr>booking = Undefined, allotmentConfirmation = Undefined,
       monthlyInstallments = Undefined, halfYearly = Undefined,
       onPossession = Undefined, total = Undefined\<rparr>,
     renders = None\<rparr>"

section \<open>Arithmetic of the two updaters\<close>

lemma js_rem_nonneg: "0 \<le> a \<Longrightarrow> 0 < b \<Longrightarrow> js_rem a b = a mod b"
  by (cases "a = 0") (simp_all add: js_rem_def)

lemma next_index_mod: "0 \<le> i \<Longrightarrow> 0 < len \<Longrightarrow> next_index len i = (i + 1) mod int len"
  by (simp add: next_index_def js_rem_nonneg)

lemma prev_index_mod: "0 \<le> i \<Longrightarrow> 0 < len \<Longrightarrow> prev_index len i = (i - 1) mod int len"
proof -
  assume a: "0 \<le> i" "0 < len"
  then have "0 \<le> i - 1 + int len" by simp
  with a have "prev_index len i = (i - 1 + int len) mod int len"
    by (simp add: prev_index_def js_rem_nonneg)
  then show ?thesis by simp
qed

lemma next_index_in_range: "in_range len i \<Longrightarrow> in_range len (next_index len i)"
  by (auto simp: in_range_def next_index_mod)

lemma prev_index_in_range: "in_range len i \<Longrightarrow> in_range len (prev_index len i)"
  by (auto simp: in_range_def prev_index_mod)

lemma next_index_wrap:
  "in_range len i \<Longrightarrow> next_index len i = (if i = int len - 1 then 0 else i + 1)"
  by (auto simp: in_range_def next_index_mod)

lemma prev_index_wrap:
  "in_range len i \<Longrightarrow> prev_index len i = (if i = 0 then int len - 1 else i - 1)"
  by (auto simp: in_range_def prev_index_mod zmod_minus1)

lemma prev_next: "in_range len i \<Longrightarrow> prev_index len (next_index len i) = i"
  using next_index_in_range[of len i]
  by (auto simp: prev_index_wrap next_index_wrap in_range_def split: if_splits)

lemma next_prev: "in_range len i \<Longrightarrow> next_index len (prev_index len i) = i"
  using prev_index_in_range[of len i]
  by (auto simp: prev_index_wrap next_index_wrap in_range_def split: if_splits)

lemma next_pow: "in_range len i \<Longrightarrow> (next_index len ^^ k) i = (i + int k) mod int len"
proof (induction k)
  case 0
  then show ?case by (simp add: in_range_def)
next
  case (Suc k)
  have r: "in_range len ((i + int k) mod int len)"
    using Suc.prems by (simp add: in_range_def)
  have "(next_index len ^^ Suc k) i = next_index len ((i + int k) mod int len)"
    using Suc by simp
  also have "\<dots> = ((i + int k) mod int len + 1) mod int len"
    using r by (simp add: next_index_mod in_range_def)
  also have "\<dots> = (i + int k + 1) mod int len"
    by (rule mod_add_left_eq)
  also have "\<dots> = (i + int (Suc k)) mod int len"
    by (simp add: ac_simps)
  finally show ?case .
qed

lemma prev_pow: "in_range len i \<Longrightarrow> (prev_index len ^^ k) i = (i - int k) mod int len"
proof (induction k)
  case 0
  then show ?case by (simp add: in_range_def)
next
  case (Suc k)
  have r: "in_range len ((i - int k) mod int len)"
    using Suc.prems by (simp add: in_range_def)
  have "(prev_index len ^^ Suc k) i = prev_index len ((i - int k) mod int len)"
    using Suc by simp
  also have "\<dots> = ((i - int k) mod int len - 1) mod int len"
    using r by (simp add: prev_index_mod in_range_def)
  also have "\<dots> = (i - int k - 1) mod int len"
    by (rule mod_diff_left_eq)
  also have "\<dots> = (i - int (Suc k)) mod int len"
    by (simp add: algebra_simps)
  finally show ?case .
qed

lemma next_cycle: "in_range len i \<Longrightarrow> (next_index len ^^ len) i = i"
  by (simp add: next_pow) (simp add: in_range_def)

lemma prev_cycle: "in_range len i \<Longrightarrow> (prev_index len ^^ len) i = i"
  by (simp add: prev_pow) (simp add: in_range_def)

section \<open>The listener and the click handlers, case by case\<close>

lemma onKey_ArrowRight:
  "renders apt = Some rs \<Longrightarrow> rs \<noteq> [] \<Longrightarrow>
   onKey apt ''ArrowRight'' s = setCurrentImageIndex (next_index (length rs)) s"
  by (simp add: onKey_def)

lemma onKey_ArrowLeft:
  "renders apt = Some rs \<Longrightarrow> rs \<noteq> [] \<Longrightarrow>
   onKey apt ''ArrowLeft'' s = setCurrentImageIndex (prev_index (length rs)) s"
  by (simp add: onKey_def)

lemma onKey_Escape:
  "onKey apt ''Escape'' s = (if lightboxOpen s then setLightboxOpen False s else onClose s)"
  by (simp add: onKey_def Let_def split: option.splits)

lemma onKey_no_renders:
  "renders apt = None \<or> renders apt = Some [] \<Longrightarrow> key \<noteq> ''Escape'' \<Longrightarrow> onKey apt key s = s"
  by (auto simp: onKey_def)

lemma onKey_index:
  "renders apt = Some rs \<Longrightarrow> rs \<noteq> [] \<Longrightarrow> in_range (length rs) (currentImageIndex s) \<Longrightarrow>
   in_range (length rs) (currentImageIndex (onKey apt key s))"
  by (auto simp: onKey_def Let_def setCurrentImageIndex_def setLightboxOpen_def onClose_def
      next_index_in_range prev_index_in_range)

lemma click_index:
  "renders apt = Some rs \<Longrightarrow> in_range (length rs) (currentImageIndex s) \<Longrightarrow>
   in_range (length rs) (currentImageIndex (click apt el s))"
  by (cases el)
    (auto simp: click_def is_overlay_def handleBackdropClick_def setCurrentImageIndex_def
      setLightboxOpen_def onClose_def next_index_in_range prev_index_in_range)

lemma step_index:
  "renders apt = Some rs \<Longrightarrow> rs \<noteq> [] \<Longrightarrow> in_range (length rs) (currentImageIndex s) \<Longrightarrow>
   in_range (length rs) (currentImageIndex (step apt s ev))"
  by (cases ev) (simp_all add: onKey_index click_index)

lemma run_index:
  "renders apt = Some rs \<Longrightarrow> rs \<noteq> [] \<Longrightarrow> in_range (length rs) (currentImageIndex s) \<Longrightarrow>
   in_range (length rs) (currentImageIndex (run apt s evs))"
  by (induction evs arbitrary: s) (simp_all add: step_index)

lemma step_next_event:
  assumes "renders apt = Some rs" and "rs \<noteq> []"
    and "in_range (length rs) (currentImageIndex s)"
    and "ev = KeyDown ''ArrowRight'' \<or> ev = Click NextButton"
  shows "currentImageIndex (step apt s ev) = next_index (length rs) (currentImageIndex s)"
proof (cases "ev = Click NextButton \<and> length rs = 1")
  case True
  then have "step apt s ev = s"
    using assms by (simp add: navigation_shown_def)
  moreover have "next_index (length rs) (currentImageIndex s) = currentImageIndex s"
    using True assms(3) by (auto simp: next_index_wrap in_range_def)
  ultimately show ?thesis by simp
next
  case False
  then show ?thesis
    using assms
    by (cases "length rs") (auto simp: onKey_ArrowRight navigation_shown_def click_def is_overlay_def
        handleBackdropClick_def setCurrentImageIndex_def)
qed

lemma step_prev_event:
  assumes "renders apt = Some rs" and "rs \<noteq> []"
    and "in_range (length rs) (currentImageIndex s)"
    and "ev = KeyDown ''ArrowLeft'' \<or> ev = Click PrevButton"
  shows "currentImageIndex (step apt s ev) = prev_index (length rs) (currentImageIndex s)"
proof (cases "ev = Click PrevButton \<and> length rs = 1")
  case True
  then have "step apt s ev = s"
    using assms by (simp add: navigation_shown_def)
  moreover have "prev_index (length rs) (currentImageIndex s) = currentImageIndex s"
    using True assms(3) by (auto simp: prev_index_wrap in_range_def)
  ultimately show ?thesis by simp
next
  case False
  then show ?thesis
    using assms
    by (cases "length rs") (auto simp: onKey_ArrowLeft navigation_shown_def click_def is_overlay_def
        handleBackdropClick_def setCurrentImageIndex_def)
qed

section \<open>The index stays inside the sequence\<close>

text \<open>
  Claim C1. For a unit record whose renders are a non-empty sequence of length N,
  the current image index starts at 0 and lies in the interval from 0 (included)
  to N (excluded) after every sequence of key presses and clicks; and each
  operation that changes the index (the ArrowRight and ArrowLeft keys, the next
  and previous buttons) takes the index \<open>i\<close> of such a state to \<open>i + 1\<close> or to
  \<open>i - 1\<close> modulo N.
\<close>

theorem index_in_range:
  assumes "renders apt = Some rs" and "rs \<noteq> []"
  shows "currentImageIndex init = 0 \<and>
         0 \<le> currentImageIndex (run apt init evs) \<and>
         currentImageIndex (run apt init evs) < int (length rs) \<and>
         currentImageIndex (step apt (run apt init evs) (KeyDown ''ArrowRight'')) =
           (currentImageIndex (run apt init evs) + 1) mod int (length rs) \<and>
         currentImageIndex (step apt (run apt init evs) (Click NextButton)) =
           (currentImageIndex (run apt init evs) + 1) mod int (length rs) \<and>
         currentImageIndex (step apt (run apt init evs) (KeyDown ''ArrowLeft'')) =
           (currentImageIndex (run apt init evs) - 1) mod int (length rs) \<and>
         currentImageIndex (step apt (run apt init evs) (Click PrevButton)) =
           (currentImageIndex (run apt init evs) - 1) mod int (length rs)"
proof -
  let ?s = "run apt init evs"
  have "in_range (length rs) (currentImageIndex init)"
    using assms by (simp add: in_range_def init_def)
  then have r: "in_range (length rs) (currentImageIndex ?s)"
    using assms by (simp add: run_index)
  have n: "next_index (length rs) (currentImageIndex ?s) =
      (currentImageIndex ?s + 1) mod int (length rs)"
    using r assms(2) by (simp add: next_index_mod in_range_def)
  have p: "prev_index (length rs) (currentImageIndex ?s) =
      (currentImageIndex ?s - 1) mod int (length rs)"
    using r assms(2) by (simp add: prev_index_mod in_range_def)
  have a: "currentImageIndex (step apt ?s (KeyDown ''ArrowRight'')) =
      (currentImageIndex ?s + 1) mod int (length rs)"
    using step_next_event [OF assms r, of "KeyDown ''ArrowRight''"] n by simp
  have b: "currentImageIndex (step apt ?s (Click NextButton)) =
      (currentImageIndex ?s + 1) mod int (length rs)"
    using step_next_event [OF assms r, of "Click NextButton"] n by simp
  have c: "currentImageIndex (step apt ?s (KeyDown ''ArrowLeft'')) =
      (currentImageIndex ?s - 1) mod int (length rs)"
    using step_prev_event [OF assms r, of "KeyDown ''ArrowLeft''"] p by simp
  have d: "currentImageIndex (step apt ?s (Click PrevButton)) =
      (currentImageIndex ?s - 1) mod int (length rs)"
    using step_prev_event [OF assms r, of "Click PrevButton"] p by simp
  have i: "currentImageIndex init = 0"
    by (simp add: init_def)
  from r have "0 \<le> currentImageIndex ?s \<and> currentImageIndex ?s < int (length rs)"
    by (simp add: in_range_def)
  with i a b c d show ?thesis
    by blast
qed

theorem index_in_range_witness:
  "renders flat_A101 = Some [''/renders/a101-1.png'', ''/renders/a101-2.png'',
                             ''/renders/a101-3.png''] \<and>
   0 \<le> currentImageIndex (run flat_A101 init
      [KeyDown ''ArrowLeft'', Click ExpandButton, KeyDown ''ArrowLeft'', Click NextButton,
       Click NextButton]) \<and>
   currentImageIndex (run flat_A101 init
      [KeyDown ''ArrowLeft'', Click ExpandButton, KeyDown ''ArrowLeft'', Click NextButton,
       Click NextButton]) < 3"
proof -
  let ?rs = "[''/renders/a101-1.png'', ''/renders/a101-2.png'', ''/renders/a101-3.png'']"
  have r: "renders flat_A101 = Some ?rs"
    by (simp add: flat_A101_def)
  have n: "?rs \<noteq> []"
    by simp
  have len: "int (length ?rs) = 3"
    by simp
  note t = index_in_range [OF r n, of "[KeyDown ''ArrowLeft'', Click ExpandButton,
      KeyDown ''ArrowLeft'', Click NextButton, Click NextButton]", unfolded len]
  from r t show ?thesis
    by blast
qed

section \<open>Next and previous are inverse rotations\<close>

lemma run_replicate_next:
  assumes "renders apt = Some rs" and "rs \<noteq> []"
    and "ev = KeyDown ''ArrowRight'' \<or> ev = Click NextButton"
  shows "in_range (length rs) (currentImageIndex s) \<Longrightarrow>
    currentImageIndex (run apt s (replicate k ev)) = (next_index (length rs) ^^ k) (currentImageIndex s)"
proof (induction k arbitrary: s)
  case 0
  then show ?case by simp
next
  case (Suc k)
  have "in_range (length rs) (currentImageIndex (step apt s ev))"
    using assms Suc.prems by (simp add: step_index)
  then have "currentImageIndex (run apt (step apt s ev) (replicate k ev)) =
      (next_index (length rs) ^^ k) (currentImageIndex (step apt s ev))"
    by (rule Suc.IH)
  then show ?case
    using step_next_event[OF assms(1,2) Suc.prems assms(3)] by (simp add: funpow_swap1)
qed

lemma run_replicate_prev:
  assumes "renders apt = Some rs" and "rs \<noteq> []"
    and "ev = KeyDown ''ArrowLeft'' \<or> ev = Click PrevButton"
  shows "in_range (length rs) (currentImageIndex s) \<Longrightarrow>
    currentImageIndex (run apt s (replicate k ev)) = (prev_index (length rs) ^^ k) (currentImageIndex s)"
proof (induction k arbitrary: s)
  case 0
  then show ?case by simp
next
  case (Suc k)
  have "in_range (length rs) (currentImageIndex (step apt s ev))"
    using assms Suc.prems by (simp add: step_index)
  then have "currentImageIndex (run apt (step apt s ev) (replicate k ev)) =
      (prev_index (length rs) ^^ k) (currentImageIndex (step apt s ev))"
    by (rule Suc.IH)
  then show ?case
    using step_prev_event[OF assms(1,2) Suc.prems assms(3)] by (simp add: funpow_swap1)
qed

text \<open>
  Claim C2. For a non-empty render sequence of length N and a starting index in
  the sequence, N times "next" returns to the starting index, N times "previous"
  returns to the starting index, and "next" followed by "previous" is the
  identity on the index. This holds of the two updaters, of the arrow keys and of
  the navigation buttons.
\<close>

theorem carousel_cycle:
  assumes "renders apt = Some rs" and "rs \<noteq> []"
    and "in_range (length rs) (currentImageIndex s)"
    and "nx = KeyDown ''ArrowRight'' \<or> nx = Click NextButton"
    and "pv = KeyDown ''ArrowLeft'' \<or> pv = Click PrevButton"
  shows "(next_index (length rs) ^^ length rs) (currentImageIndex s) = currentImageIndex s \<and>
         (prev_index (length rs) ^^ length rs) (currentImageIndex s) = currentImageIndex s \<and>
         prev_index (length rs) (next_index (length rs) (currentImageIndex s)) = currentImageIndex s \<and>
         currentImageIndex (run apt s (replicate (length rs) nx)) = currentImageIndex s \<and>
         currentImageIndex (run apt s (replicate (length rs) pv)) = currentImageIndex s \<and>
         currentImageIndex (run apt s [nx, pv]) = currentImageIndex s"
proof -
  let ?n = "length rs" and ?i = "currentImageIndex s"
  have a: "(next_index ?n ^^ ?n) ?i = ?i"
    using assms(3) by (rule next_cycle)
  have b: "(prev_index ?n ^^ ?n) ?i = ?i"
    using assms(3) by (rule prev_cycle)
  have c: "prev_index ?n (next_index ?n ?i) = ?i"
    using assms(3) by (rule prev_next)
  have d: "currentImageIndex (run apt s (replicate ?n nx)) = ?i"
    using run_replicate_next[OF assms(1,2,4,3), of ?n] a by simp
  have e: "currentImageIndex (run apt s (replicate ?n pv)) = ?i"
    using run_replicate_prev[OF assms(1,2,5,3), of ?n] b by simp
  have r: "in_range ?n (currentImageIndex (step apt s nx))"
    using assms by (simp add: step_index)
  have "currentImageIndex (run apt s [nx, pv]) =
      prev_index ?n (currentImageIndex (step apt s nx))"
    using step_prev_event[OF assms(1,2) r assms(5)] by simp
  also have "\<dots> = prev_index ?n (next_index ?n ?i)"
    using step_next_event[OF assms(1,2,3,4)] by simp
  finally have f: "currentImageIndex (run apt s [nx, pv]) = ?i"
    using c by simp
  from a b c d e f show ?thesis by simp
qed

theorem carousel_cycle_witness:
  "renders flat_A101 = Some [''/renders/a101-1.png'', ''/renders/a101-2.png'',
                             ''/renders/a101-3.png''] \<and>
   in_range 3 2 \<and>
   (next_index 3 ^^ 3) 2 = 2 \<and>
   (prev_index 3 ^^ 3) 2 = 2 \<and>
   prev_index 3 (next_index 3 2) = 2 \<and>
   currentImageIndex (run flat_A101 (init\<lparr>currentImageIndex := 2\<rparr>)
     (replicate 3 (Click NextButton))) = 2 \<and>
   currentImageIndex (run flat_A101 (init\<lparr>currentImageIndex := 2\<rparr>)
     (replicate 3 (KeyDown ''ArrowLeft''))) = 2 \<and>
   currentImageIndex (run flat_A101 (init\<lparr>currentImageIndex := 2\<rparr>)
     [Click NextButton, KeyDown ''ArrowLeft'']) = 2"
proof -
  let ?rs = "[''/renders/a101-1.png'', ''/renders/a101-2.png'', ''/renders/a101-3.png'']"
  let ?s = "init\<lparr>currentImageIndex := 2\<rparr>"
  have r: "renders flat_A101 = Some ?rs"
    by (simp add: flat_A101_def)
  have n: "?rs \<noteq> []"
    by simp
  have len: "length ?rs = 3"
    by simp
  have i: "currentImageIndex ?s = 2"
    by simp
  have g: "in_range (length ?rs) (currentImageIndex ?s)"
    by (simp add: in_range_def)
  have nx: "Click NextButton = KeyDown ''ArrowRight'' \<or> Click NextButton = Click NextButton"
    by simp
  have pv: "KeyDown ''ArrowLeft'' = KeyDown ''ArrowLeft'' \<or> KeyDown ''ArrowLeft'' = Click PrevButton"
    by simp
  note c = carousel_cycle [OF r n g nx pv, unfolded len i]
  have g': "in_range 3 2"
    by (simp add: in_range_def)
  from r g' c show ?thesis
    by blast
qed

section \<open>Escape\<close>

text \<open>
  Claim C4. In a state where the lightbox is open, pressing Escape closes only the
  lightbox: \<^verbatim>\<open>onClose\<close> is not invoked and the main dialog is still rendered.
  Pressing Escape again, in the resulting state, invokes \<^verbatim>\<open>onClose\<close>. Across the
  two presses \<^verbatim>\<open>onClose\<close> is invoked exactly once.
\<close>

theorem escape_twice:
  assumes "lightboxOpen s"
  shows "step apt s (KeyDown ''Escape'') = s\<lparr>lightboxOpen := False\<rparr> \<and>
         closeCalls (step apt s (KeyDown ''Escape'')) = closeCalls s \<and>
         rendered apt (step apt s (KeyDown ''Escape'')) Overlay \<and>
         rendered apt (step apt s (KeyDown ''Escape'')) Dialog \<and>
         \<not> rendered apt (step apt s (KeyDown ''Escape'')) LightboxOverlay \<and>
         step apt (step apt s (KeyDown ''Escape'')) (KeyDown ''Escape'') =
           s\<lparr>lightboxOpen := False, closeCalls := Suc (closeCalls s)\<rparr> \<and>
         closeCalls (run apt s [KeyDown ''Escape'', KeyDown ''Escape'']) = closeCalls s + 1"
  using assms
  by (simp add: onKey_Escape setLightboxOpen_def onClose_def lightbox_shown_def)

theorem escape_twice_witness:
  "lightboxOpen (init\<lparr>lightboxOpen := True\<rparr>) \<and>
   step flat_A101 (init\<lparr>lightboxOpen := True\<rparr>) (KeyDown ''Escape'') = init \<and>
   closeCalls (step flat_A101 (init\<lparr>lightboxOpen := True\<rparr>) (KeyDown ''Escape'')) = 0 \<and>
   closeCalls (run flat_A101 (init\<lparr>lightboxOpen := True\<rparr>)
     [KeyDown ''Escape'', KeyDown ''Escape'']) = 1"
proof -
  have o: "lightboxOpen (init\<lparr>lightboxOpen := True\<rparr>)"
    by simp
  have e: "(init\<lparr>lightboxOpen := True\<rparr>)\<lparr>lightboxOpen := False\<rparr> = init"
    by (simp add: init_def)
  have c: "closeCalls (init\<lparr>lightboxOpen := True\<rparr>) = 0"
    by (simp add: init_def)
  note t = escape_twice [OF o, of flat_A101, unfolded e c add_0]
  from o t show ?thesis
    by blast
qed

section \<open>The arrow keys\<close>

text \<open>
  Claim C9. An ArrowRight or ArrowLeft key press changes nothing when the renders
  are empty or absent. When they are not empty it advances or retreats the index,
  wrapping around at the ends, leaves the lightbox flag (and everything else)
  as it is, and changes the index in the same way whether the lightbox is open or
  not.
\<close>

theorem arrow_keys:
  "(renders apt = None \<or> renders apt = Some [] \<longrightarrow>
      step apt s (KeyDown ''ArrowRight'') = s \<and> step apt s (KeyDown ''ArrowLeft'') = s) \<and>
   (\<forall>rs. renders apt = Some rs \<and> rs \<noteq> [] \<longrightarrow>
      step apt s (KeyDown ''ArrowRight'') =
        s\<lparr>currentImageIndex := next_index (length rs) (currentImageIndex s)\<rparr> \<and>
      step apt s (KeyDown ''ArrowLeft'') =
        s\<lparr>currentImageIndex := prev_index (length rs) (currentImageIndex s)\<rparr> \<and>
      (in_range (length rs) (currentImageIndex s) \<longrightarrow>
         next_index (length rs) (currentImageIndex s) =
           (if currentImageIndex s = int (length rs) - 1 then 0 else currentImageIndex s + 1) \<and>
         prev_index (length rs) (currentImageIndex s) =
           (if currentImageIndex s = 0 then int (length rs) - 1 else currentImageIndex s - 1)) \<and>
      lightboxOpen (step apt s (KeyDown ''ArrowRight'')) = lightboxOpen s \<and>
      lightboxOpen (step apt s (KeyDown ''ArrowLeft'')) = lightboxOpen s \<and>
      currentImageIndex (step apt (s\<lparr>lightboxOpen := b\<rparr>) (KeyDown ''ArrowRight'')) =
        currentImageIndex (step apt s (KeyDown ''ArrowRight'')) \<and>
      currentImageIndex (step apt (s\<lparr>lightboxOpen := b\<rparr>) (KeyDown ''ArrowLeft'')) =
        currentImageIndex (step apt s (KeyDown ''ArrowLeft'')))"
proof -
  have a: "renders apt = None \<or> renders apt = Some [] \<longrightarrow>
      step apt s (KeyDown ''ArrowRight'') = s \<and> step apt s (KeyDown ''ArrowLeft'') = s"
    by (auto simp: onKey_def)
  have b: "\<And>rs t. renders apt = Some rs \<Longrightarrow> rs \<noteq> [] \<Longrightarrow>
      step apt t (KeyDown ''ArrowRight'') =
        t\<lparr>currentImageIndex := next_index (length rs) (currentImageIndex t)\<rparr> \<and>
      step apt t (KeyDown ''ArrowLeft'') =
        t\<lparr>currentImageIndex := prev_index (length rs) (currentImageIndex t)\<rparr>"
    by (simp add: onKey_ArrowRight onKey_ArrowLeft setCurrentImageIndex_def)
  show ?thesis
    using a b [of _ s] b [of _ "s\<lparr>lightboxOpen := b\<rparr>"]
    by (simp add: next_index_wrap prev_index_wrap)
qed

theorem arrow_keys_witness:
  "renders flat_A101 = Some [''/renders/a101-1.png'', ''/renders/a101-2.png'',
                             ''/renders/a101-3.png''] \<and>
   renders shop_G3 = None \<and>
   step shop_G3 init (KeyDown ''ArrowRight'') = init \<and>
   step flat_A101 (init\<lparr>lightboxOpen := True\<rparr>) (KeyDown ''ArrowLeft'') =
     init\<lparr>lightboxOpen := True, currentImageIndex := 2\<rparr> \<and>
   step flat_A101 (init\<lparr>currentImageIndex := 2\<rparr>) (KeyDown ''ArrowRight'') = init"
proof -
  let ?rs = "[''/renders/a101-1.png'', ''/renders/a101-2.png'', ''/renders/a101-3.png'']"
  have r: "renders flat_A101 = Some ?rs"
    by (simp add: flat_A101_def)
  have n: "renders shop_G3 = None"
    by (simp add: shop_G3_def)
  have p: "prev_index (length ?rs) (currentImageIndex (init\<lparr>lightboxOpen := True\<rparr>)) = 2"
    by (simp add: prev_index_def js_rem_def init_def)
  have q: "next_index (length ?rs) (currentImageIndex (init\<lparr>currentImageIndex := 2\<rparr>)) = 0"
    by (simp add: next_index_def js_rem_def init_def)
  have "step shop_G3 init (KeyDown ''ArrowRight'') = init"
    using arrow_keys [of shop_G3 init] n by simp
  moreover have "step flat_A101 (init\<lparr>lightboxOpen := True\<rparr>) (KeyDown ''ArrowLeft'') =
     init\<lparr>lightboxOpen := True, currentImageIndex := 2\<rparr>"
    using arrow_keys [of flat_A101 "init\<lparr>lightboxOpen := True\<rparr>"] r p by (simp add: init_def)
  moreover have "step flat_A101 (init\<lparr>currentImageIndex := 2\<rparr>) (KeyDown ''ArrowRight'') = init"
    using arrow_keys [of flat_A101 "init\<lparr>currentImageIndex := 2\<rparr>"] r q by (simp add: init_def)
  ultimately show ?thesis
    using r n by blast
qed

section \<open>Without renders the lightbox stays closed\<close>

lemma step_lightbox_closed:
  assumes "renders apt = None \<or> renders apt = Some []" and "\<not> lightboxOpen s"
  shows "\<not> lightboxOpen (step apt s ev)"
proof (cases ev)
  case (KeyDown key)
  then show ?thesis
    using assms
    by (auto simp: onKey_def Let_def onClose_def setLightboxOpen_def)
next
  case (Click el)
  then show ?thesis
    using assms
    by (cases el)
      (auto simp: click_def is_overlay_def handleBackdropClick_def onClose_def
        setLightboxOpen_def gallery_shown_def navigation_shown_def lightbox_shown_def)
qed

lemma run_lightbox_closed:
  assumes "renders apt = None \<or> renders apt = Some []"
  shows "\<not> lightboxOpen s \<Longrightarrow> \<not> lightboxOpen (run apt s evs)"
proof (induction evs arbitrary: s)
  case Nil
  then show ?case by simp
next
  case (Cons ev evs)
  have "\<not> lightboxOpen (step apt s ev)"
    using assms Cons.prems by (rule step_lightbox_closed)
  then show ?case
    using Cons.IH by simp
qed

text \<open>
  Claim C10. For a unit record whose renders are empty or absent the lightbox is
  closed in every reachable state: it is closed at first, the image and the expand
  control that open it are not rendered, and so the lightbox overlay is never
  displayed.
\<close>

theorem lightbox_never_opens:
  assumes "renders apt = None \<or> renders apt = Some []"
  shows "\<not> lightboxOpen init \<and>
         \<not> rendered apt s GalleryImage \<and> \<not> rendered apt s ExpandButton \<and>
         \<not> lightboxOpen (run apt init evs) \<and>
         \<not> rendered apt (run apt init evs) LightboxOverlay \<and>
         \<not> rendered apt (run apt init evs) LightboxImage \<and>
         \<not> rendered apt (run apt init evs) LightboxClose"
proof -
  have i: "\<not> lightboxOpen init"
    by (simp add: init_def)
  then have "\<not> lightboxOpen (run apt init evs)"
    using assms by (simp add: run_lightbox_closed)
  then show ?thesis
    using i assms by (auto simp: lightbox_shown_def gallery_shown_def)
qed

theorem lightbox_never_opens_witness:
  "renders shop_G3 = None \<and>
   \<not> lightboxOpen (run shop_G3 init
       [Click GalleryImage, Click ExpandButton, KeyDown ''ArrowRight'', Click Overlay]) \<and>
   \<not> rendered shop_G3 (run shop_G3 init
       [Click GalleryImage, Click ExpandButton, KeyDown ''ArrowRight'', Click Overlay])
       LightboxOverlay"
proof -
  have r: "renders shop_G3 = None"
    by (simp add: shop_G3_def)
  then have h: "renders shop_G3 = None \<or> renders shop_G3 = Some []"
    by simp
  from r lightbox_never_opens [OF h, of init
      "[Click GalleryImage, Click ExpandButton, KeyDown ''ArrowRight'', Click Overlay]"]
  show ?thesis
    by blast
qed

section \<open>Classification and the detail lines\<close>

lemma lower_char_pair:
  "(c, d) \<in> set (zip ''ABCDEFGHIJKLMNOPQRSTUVWXYZ'' ''abcdefghijklmnopqrstuvwxyz'') \<Longrightarrow>
   lower_char c = d \<and> lower_char d = d"
  apply simp
  apply (elim disjE conjE)
  apply (simp_all add: lower_char_def)
  done

lemma lower_char_variant: "case_variant c d \<Longrightarrow> lower_char c = lower_char d"
  unfolding case_variant_def
  by (elim disjE) (simp_all add: lower_char_pair)

lemma toLowerCase_variant: "same_ignoring_case t u \<Longrightarrow> toLowerCase t = toLowerCase u"
  unfolding same_ignoring_case_def toLowerCase_def
  by (induction t u rule: list_all2_induct) (simp_all add: lower_char_variant)

lemma classifyUnit_cases:
  "classifyUnit apt =
    (if toLowerCase (type apt) = ''shop'' \<or> toLowerCase (type apt) = ''office''
     then Commercial
     else if toLowerCase (type apt) = ''studio'' then Studio else Residential)"
  by (simp add: classifyUnit_def isCommercial_def isStudio_def)

text \<open>
  Claim C5. The classification of the type string does not depend on the case of
  its letters: "shop" and "office" are commercial, exactly "studio" is studio, and
  every other type is residential. The bedroom line is rendered if and only if the
  classification is residential, the bathroom line if and only if it is not
  commercial, and the price line is missing if and only if it is commercial.
\<close>

theorem classification_sections:
  "(classifyUnit apt = Commercial \<longleftrightarrow>
      toLowerCase (type apt) = ''shop'' \<or> toLowerCase (type apt) = ''office'') \<and>
   (classifyUnit apt = Studio \<longleftrightarrow> toLowerCase (type apt) = ''studio'') \<and>
   (classifyUnit apt = Residential \<longleftrightarrow>
      toLowerCase (type apt) \<noteq> ''shop'' \<and> toLowerCase (type apt) \<noteq> ''office'' \<and>
      toLowerCase (type apt) \<noteq> ''studio'') \<and>
   (same_ignoring_case (type apt) (type apt') \<longrightarrow>
      classifyUnit apt = classifyUnit apt') \<and>
   (rendered apt s BedroomLine \<longleftrightarrow> classifyUnit apt = Residential) \<and>
   (rendered apt s BathroomLine \<longleftrightarrow> classifyUnit apt \<noteq> Commercial) \<and>
   (\<not> rendered apt s PriceLine \<longleftrightarrow> classifyUnit apt = Commercial)"
proof -
  have a: "same_ignoring_case (type apt) (type apt') \<longrightarrow>
      classifyUnit apt = classifyUnit apt'"
    by (auto simp only: classifyUnit_cases dest!: toLowerCase_variant)
  have b: "rendered apt s BedroomLine \<longleftrightarrow> classifyUnit apt = Residential"
    by (simp add: classifyUnit_def)
  have c: "rendered apt s BathroomLine \<longleftrightarrow> classifyUnit apt \<noteq> Commercial"
    by (simp add: classifyUnit_def)
  have d: "\<not> rendered apt s PriceLine \<longleftrightarrow> classifyUnit apt = Commercial"
    by (simp add: classifyUnit_def)
  have e: "(classifyUnit apt = Commercial \<longleftrightarrow>
      toLowerCase (type apt) = ''shop'' \<or> toLowerCase (type apt) = ''office'') \<and>
   (classifyUnit apt = Studio \<longleftrightarrow> toLowerCase (type apt) = ''studio'') \<and>
   (classifyUnit apt = Residential \<longleftrightarrow>
      toLowerCase (type apt) \<noteq> ''shop'' \<and> toLowerCase (type apt) \<noteq> ''office'' \<and>
      toLowerCase (type apt) \<noteq> ''studio'')"
    by (simp add: classifyUnit_cases)
  from a b c d e show ?thesis by blast
qed

theorem classification_sections_witness:
  "same_ignoring_case (type shop_G3) (type (shop_G3\<lparr>type := ''sHOP''\<rparr>)) \<and>
   classifyUnit shop_G3 = Commercial \<and>
   classifyUnit (shop_G3\<lparr>type := ''sHOP''\<rparr>) = Commercial \<and>
   classifyUnit (shop_G3\<lparr>type := ''STUDIO''\<rparr>) = Studio \<and>
   classifyUnit flat_A101 = Residential \<and>
   \<not> rendered shop_G3 init BedroomLine \<and>
   \<not> rendered shop_G3 init PriceLine \<and>
   rendered (shop_G3\<lparr>type := ''STUDIO''\<rparr>) init BathroomLine \<and>
   \<not> rendered (shop_G3\<lparr>type := ''STUDIO''\<rparr>) init BedroomLine \<and>
   rendered flat_A101 init BedroomLine"
proof -
  have v: "same_ignoring_case (type shop_G3) (type (shop_G3\<lparr>type := ''sHOP''\<rparr>))"
    by (simp add: shop_G3_def same_ignoring_case_def case_variant_def)
  have l1: "toLowerCase (type shop_G3) = ''shop''"
    by (simp add: shop_G3_def toLowerCase_def lower_char_def)
  have l2: "toLowerCase (type (shop_G3\<lparr>type := ''STUDIO''\<rparr>)) = ''studio''"
    by (simp add: toLowerCase_def lower_char_def)
  have l3: "toLowerCase (type flat_A101) = ''2 bed''"
    by (simp add: flat_A101_def toLowerCase_def lower_char_def)
  note a = classification_sections [of shop_G3 "shop_G3\<lparr>type := ''sHOP''\<rparr>" init]
  note b = classification_sections [of "shop_G3\<lparr>type := ''STUDIO''\<rparr>" flat_A101 init]
  note c = classification_sections [of flat_A101 flat_A101 init]
  have a1: "classifyUnit shop_G3 = Commercial"
    using a l1 by simp
  have a2: "classifyUnit (shop_G3\<lparr>type := ''sHOP''\<rparr>) = Commercial"
    using a v a1 by simp
  have b1: "classifyUnit (shop_G3\<lparr>type := ''STUDIO''\<rparr>) = Studio"
    using b l2 by simp
  have c1: "classifyUnit flat_A101 = Residential"
    using c l3 by simp
  from v a b c a1 a2 b1 c1 show ?thesis
    by auto
qed

section \<open>The gallery\<close>

text \<open>
  Claim C7. The gallery region (heading, disclaimer, image, expand control) is
  rendered if and only if the renders are a non-empty sequence, and the previous
  and next buttons only inside it, with more than one render. The heading is
  "Image Gallery" if and only if there is more than one render and
  "Render & Image" if and only if there is exactly one. With exactly one render
  there are no previous and next buttons, but the expand control is there.
\<close>

theorem gallery_region:
  "(rendered apt s GalleryHeading \<longleftrightarrow> renders apt \<noteq> None \<and> renders apt \<noteq> Some []) \<and>
   (rendered apt s Disclaimer \<longleftrightarrow> renders apt \<noteq> None \<and> renders apt \<noteq> Some []) \<and>
   (rendered apt s GalleryImage \<longleftrightarrow> renders apt \<noteq> None \<and> renders apt \<noteq> Some []) \<and>
   (rendered apt s ExpandButton \<longleftrightarrow> renders apt \<noteq> None \<and> renders apt \<noteq> Some []) \<and>
   (rendered apt s PrevButton \<longleftrightarrow> (\<exists>rs. renders apt = Some rs \<and> 1 < length rs)) \<and>
   (rendered apt s NextButton \<longleftrightarrow> (\<exists>rs. renders apt = Some rs \<and> 1 < length rs)) \<and>
   (\<forall>rs. renders apt = Some rs \<and> rs \<noteq> [] \<longrightarrow>
      (gallery_heading apt = ''Image Gallery'' \<longleftrightarrow> 1 < length rs) \<and>
      (gallery_heading apt = ''Render & Image'' \<longleftrightarrow> length rs = 1)) \<and>
   (\<forall>r. renders apt = Some [r] \<longrightarrow>
      \<not> rendered apt s PrevButton \<and> \<not> rendered apt s NextButton \<and>
      rendered apt s ExpandButton)"
proof (cases "renders apt")
  case None
  then show ?thesis
    by (simp add: gallery_shown_def navigation_shown_def)
next
  case (Some rs)
  have one: "rs \<noteq> [] \<Longrightarrow> \<not> 1 < length rs \<Longrightarrow> length rs = 1"
    by (cases rs) simp_all
  show ?thesis
    using Some one
    by (auto simp: gallery_shown_def navigation_shown_def gallery_heading_def)
qed

theorem gallery_region_witness:
  "rendered flat_A101 init GalleryHeading \<and>
   rendered flat_A101 init NextButton \<and>
   gallery_heading flat_A101 = ''Image Gallery'' \<and>
   gallery_heading (flat_A101\<lparr>renders := Some [''/renders/a101-1.png'']\<rparr>) = ''Render & Image'' \<and>
   \<not> rendered (flat_A101\<lparr>renders := Some [''/renders/a101-1.png'']\<rparr>) init PrevButton \<and>
   \<not> rendered (flat_A101\<lparr>renders := Some [''/renders/a101-1.png'']\<rparr>) init NextButton \<and>
   rendered (flat_A101\<lparr>renders := Some [''/renders/a101-1.png'']\<rparr>) init ExpandButton \<and>
   \<not> rendered shop_G3 init GalleryHeading \<and>
   \<not> rendered shop_G3 init Disclaimer \<and>
   \<not> rendered shop_G3 init GalleryImage \<and>
   \<not> rendered shop_G3 init ExpandButton \<and>
   \<not> rendered shop_G3 init NextButton"
proof -
  have r3: "renders flat_A101 =
      Some [''/renders/a101-1.png'', ''/renders/a101-2.png'', ''/renders/a101-3.png'']"
    by (simp add: flat_A101_def)
  have r1: "renders (flat_A101\<lparr>renders := Some [''/renders/a101-1.png'']\<rparr>) =
      Some [''/renders/a101-1.png'']"
    by simp
  have r0: "renders shop_G3 = None"
    by (simp add: shop_G3_def)
  from gallery_region [of flat_A101 init] r3
  have a: "rendered flat_A101 init GalleryHeading \<and> rendered flat_A101 init NextButton \<and>
      gallery_heading flat_A101 = ''Image Gallery''"
    by simp
  from gallery_region [of "flat_A101\<lparr>renders := Some [''/renders/a101-1.png'']\<rparr>" init] r1
  have b: "gallery_heading (flat_A101\<lparr>renders := Some [''/renders/a101-1.png'']\<rparr>) =
        ''Render & Image'' \<and>
      \<not> rendered (flat_A101\<lparr>renders := Some [''/renders/a101-1.png'']\<rparr>) init PrevButton \<and>
      \<not> rendered (flat_A101\<lparr>renders := Some [''/renders/a101-1.png'']\<rparr>) init NextButton \<and>
      rendered (flat_A101\<lparr>renders := Some [''/renders/a101-1.png'']\<rparr>) init ExpandButton"
    by simp
  from gallery_region [of shop_G3 init] r0
  have c: "\<not> rendered shop_G3 init GalleryHeading \<and> \<not> rendered shop_G3 init Disclaimer \<and>
      \<not> rendered shop_G3 init GalleryImage \<and> \<not> rendered shop_G3 init ExpandButton \<and>
      \<not> rendered shop_G3 init NextButton"
    by simp
  from a b c show ?thesis
    by blast
qed

section \<open>The payment column\<close>

text \<open>
  Claim C8. The payment breakdown is rendered if and only if the record has an
  installment plan. When the plan is there and its six monetary fields are all
  absent, the breakdown has six lines, the total among them, each showing "N/A".
  Without a plan the prompt to contact the sales team is rendered instead.
\<close>

theorem payment_panel:
  "(rendered apt s BreakdownPanel \<longleftrightarrow> installmentOptions apt \<noteq> None) \<and>
   ((\<exists>rows. paymentOptions P apt = Breakdown rows) \<longleftrightarrow> installmentOptions apt \<noteq> None) \<and>
   (\<forall>io. installmentOptions apt = Some io \<and> absent (booking io) \<and>
       absent (allotmentConfirmation io) \<and> absent (monthlyInstallments io) \<and>
       absent (halfYearly io) \<and> absent (onPossession io) \<and> absent (total io) \<longrightarrow>
      paymentOptions P apt =
        Breakdown [(''Booking:'', ''N/A''), (''Allotment Confirmation:'', ''N/A''),
          (''Monthly Installments:'', ''N/A''), (''Half Yearly:'', ''N/A''),
          (''On Possession:'', ''N/A''), (''Total:'', ''N/A'')]) \<and>
   (rendered apt s ContactPrompt \<longleftrightarrow> installmentOptions apt = None) \<and>
   (installmentOptions apt = None \<longrightarrow>
      paymentOptions P apt =
        Prompt ''Contact us for payment options and financing details.'')"
proof -
  have n: "\<And>v. absent v \<Longrightarrow> formatPrice P v = ''N/A''"
    by (auto simp: absent_def formatPrice_def toNumber_def)
  show ?thesis
    by (cases "installmentOptions apt") (simp_all add: paymentOptions_def n)
qed

theorem payment_panel_witness:
  "rendered shop_G3 init BreakdownPanel \<and>
   \<not> rendered shop_G3 init ContactPrompt \<and>
   (\<forall>P. paymentOptions P shop_G3 =
     Breakdown [(''Booking:'', ''N/A''), (''Allotment Confirmation:'', ''N/A''),
       (''Monthly Installments:'', ''N/A''), (''Half Yearly:'', ''N/A''),
       (''On Possession:'', ''N/A''), (''Total:'', ''N/A'')]) \<and>
   \<not> rendered flat_A101 init BreakdownPanel \<and>
   rendered flat_A101 init ContactPrompt \<and>
   (\<forall>P. paymentOptions P flat_A101 =
     Prompt ''Contact us for payment options and financing details.'')"
proof -
  have i: "installmentOptions shop_G3 =
      Some \<lparr>booking = Undefined, allotmentConfirmation = Undefined,
        monthlyInstallments = Undefined, halfYearly = Undefined,
        onPossession = Undefined, total = Undefined\<rparr>"
    by (simp add: shop_G3_def)
  have n: "installmentOptions flat_A101 = None"
    by (simp add: flat_A101_def)
  have a: "rendered shop_G3 init BreakdownPanel \<and> \<not> rendered shop_G3 init ContactPrompt \<and>
     paymentOptions P shop_G3 =
     Breakdown [(''Booking:'', ''N/A''), (''Allotment Confirmation:'', ''N/A''),
       (''Monthly Installments:'', ''N/A''), (''Half Yearly:'', ''N/A''),
       (''On Possession:'', ''N/A''), (''Total:'', ''N/A'')]" for P
    using payment_panel [of shop_G3 init P] i by (simp add: absent_def)
  have b: "\<not> rendered flat_A101 init BreakdownPanel \<and> rendered flat_A101 init ContactPrompt \<and>
     paymentOptions P flat_A101 =
       Prompt ''Contact us for payment options and financing details.''" for P
    using payment_panel [of flat_A101 init P] n by simp
  from a b show ?thesis
    by blast
qed

lemma digits_1250000: "digits 1250000 = ''1250000''"
  by (simp add: digits.simps digit_char_def)

lemma grouped_1250000: "grouped 1250000 = ''1,250,000''"
  by (simp add: grouped_def digits_1250000)

lemma Number_string_1250000: "Number_string other_number ''1250000'' = Fin 1250000"
  by (simp add: Number_string_def is_digit_def digit_value_def decimal_value_def
      MAX_SAFE_INTEGER_def)

lemma Number_string_Contact_us: "Number_string other_number ''Contact us'' = NaN"
  by (simp add: Number_string_def is_digit_def never_numeric_def)

lemma format_en_PK_1250000:
  "format_en_PK other_format (Fin 1250000) = ''Rs'' @ no_break_space @ ''1,250,000''"
  by (simp add: format_en_PK_def MAX_SAFE_INTEGER_def grouped_1250000)

lemma formatPrice_absent: "formatPrice P Undefined = ''N/A'' \<and> formatPrice P Null = ''N/A'' \<and>
    formatPrice P (Str []) = ''N/A''"
  by (simp add: formatPrice_def toNumber_def)

lemma formatPrice_Num: "formatPrice P (Num n) = NumberFormat P n"
  by (simp add: formatPrice_def toNumber_def)

lemma formatPrice_Str:
  "str \<noteq> [] \<Longrightarrow>
   formatPrice P (Str str) =
     (if isNaN P (Number_of P (filter (\<lambda>c. c \<noteq> CHR '','') str)) then str
      else NumberFormat P (Number_of P (filter (\<lambda>c. c \<noteq> CHR '','') str)))"
  by (simp add: formatPrice_def toNumber_def Let_def)

lemma formatPrice_en_PK_1250000:
  "formatPrice (en_PK other_number other_format locale_string) (Num (Fin 1250000)) =
     ''Rs'' @ no_break_space @ ''1,250,000''"
  by (simp add: formatPrice_Num en_PK_def format_en_PK_1250000)

text \<open>A string of commas alone converts to zero and is formatted, not returned.\<close>

lemma formatPrice_comma:
  "formatPrice (en_PK other_number other_format locale_string) (Str '','') =
     ''Rs'' @ no_break_space @ ''0''"
  by (simp add: formatPrice_Str en_PK_def Number_string_def decimal_value_def format_en_PK_def
      MAX_SAFE_INTEGER_def grouped_def digits.simps digit_char_def)

text \<open>
  Claim C3 as it is stated has the rupee sign in front of the digits of 1250000.
  The formatter of the locale \<^verbatim>\<open>en-PK\<close> prints \<^verbatim>\<open>Rs\<close> and a no-break space
  there, whatever the runtime does on the numbers and strings that the model
  leaves open.
\<close>

theorem formatPrice_rupee_counterexample:
  "\<forall>other_number other_format locale_string.
     formatPrice (en_PK other_number other_format locale_string) (Num (Fin 1250000)) \<noteq>
       rupee_sign @ ''1,250,000''"
  by (simp add: formatPrice_en_PK_1250000 rupee_sign_def no_break_space_def)

text \<open>
  Claim C3, amended. \<^verbatim>\<open>formatPrice\<close> of \<^verbatim>\<open>undefined\<close> is "N/A". Of the number
  1250000 it is \<^verbatim>\<open>Rs\<close>, a no-break space and 1,250,000: the formatting of PKR in
  the locale \<^verbatim>\<open>en-PK\<close>, with grouping and with no fraction digits for a whole
  amount. Of the string "1,250,000" it is the same, the commas being removed
  before the conversion. A non-empty string whose text without commas converts to
  NaN is returned as it is, "Contact us" for one. On every input, a number, a
  string, \<^verbatim>\<open>null\<close> or \<^verbatim>\<open>undefined\<close>, the function returns one of: "N/A", the
  string itself, or what the formatter returns; no case is left in which it throws.
\<close>

theorem formatPrice_cases:
  "formatPrice P Undefined = ''N/A'' \<and>
   formatPrice (en_PK other_number other_format locale_string) (Num (Fin 1250000)) =
     ''Rs'' @ no_break_space @ ''1,250,000'' \<and>
   formatPrice (en_PK other_number other_format locale_string) (Str ''1,250,000'') =
     ''Rs'' @ no_break_space @ ''1,250,000'' \<and>
   formatPrice (en_PK other_number other_format locale_string) (Str ''Contact us'') =
     ''Contact us'' \<and>
   (str \<noteq> [] \<and> isNaN P (Number_of P (filter (\<lambda>c. c \<noteq> CHR '','') str)) \<longrightarrow>
      formatPrice P (Str str) = str) \<and>
   formatPrice P v =
     (case v of
        Undefined \<Rightarrow> ''N/A''
      | Null \<Rightarrow> ''N/A''
      | Num n \<Rightarrow> NumberFormat P n
      | Str s \<Rightarrow>
          if s = [] then ''N/A''
          else if isNaN P (Number_of P (filter (\<lambda>c. c \<noteq> CHR '','') s)) then s
          else NumberFormat P (Number_of P (filter (\<lambda>c. c \<noteq> CHR '','') s)))"
proof -
  let ?E = "en_PK other_number other_format locale_string"
  have b: "formatPrice ?E (Str ''1,250,000'') = ''Rs'' @ no_break_space @ ''1,250,000''"
    by (simp add: formatPrice_Str en_PK_def Number_string_1250000 format_en_PK_1250000)
  have c: "formatPrice ?E (Str ''Contact us'') = ''Contact us''"
    by (simp add: formatPrice_Str en_PK_def Number_string_Contact_us)
  have d: "formatPrice P v =
     (case v of
        Undefined \<Rightarrow> ''N/A''
      | Null \<Rightarrow> ''N/A''
      | Num n \<Rightarrow> NumberFormat P n
      | Str s \<Rightarrow>
          if s = [] then ''N/A''
          else if isNaN P (Number_of P (filter (\<lambda>c. c \<noteq> CHR '','') s)) then s
          else NumberFormat P (Number_of P (filter (\<lambda>c. c \<noteq> CHR '','') s)))"
    by (cases v) (simp_all add: formatPrice_absent formatPrice_Num formatPrice_Str)
  have e: "str \<noteq> [] \<and> isNaN P (Number_of P (filter (\<lambda>c. c \<noteq> CHR '','') str)) \<longrightarrow>
      formatPrice P (Str str) = str"
    by (simp add: formatPrice_Str)
  from b c d e show ?thesis
    using formatPrice_en_PK_1250000 [of other_number other_format locale_string]
    by (simp only: formatPrice_absent simp_thms)
qed

theorem formatPrice_cases_witness:
  "\<forall>other_number other_format locale_string.
     ''PKR 1,250,000'' \<noteq> [] \<and>
     isNaN (en_PK other_number other_format locale_string)
       (Number_of (en_PK other_number other_format locale_string)
         (filter (\<lambda>c. c \<noteq> CHR '','') ''PKR 1,250,000'')) \<and>
     formatPrice (en_PK other_number other_format locale_string) (Str ''PKR 1,250,000'') =
       ''PKR 1,250,000''"
proof (intro allI)
  fix other_number :: "string \<Rightarrow> number"
    and other_format locale_string :: "number \<Rightarrow> string"
  let ?E = "en_PK other_number other_format locale_string"
  have n: "''PKR 1,250,000'' \<noteq> []"
    by simp
  have m: "isNaN ?E (Number_of ?E (filter (\<lambda>c. c \<noteq> CHR '','') ''PKR 1,250,000''))"
    by (simp add: en_PK_def Number_string_def is_digit_def never_numeric_def)
  from formatPrice_cases [of ?E other_number other_format locale_string "''PKR 1,250,000''"] n m
  have "formatPrice ?E (Str ''PKR 1,250,000'') = ''PKR 1,250,000''"
    by blast
  with n m show "''PKR 1,250,000'' \<noteq> [] \<and>
     isNaN ?E (Number_of ?E (filter (\<lambda>c. c \<noteq> CHR '','') ''PKR 1,250,000'')) \<and>
     formatPrice ?E (Str ''PKR 1,250,000'') = ''PKR 1,250,000''"
    by blast
qed

section \<open>Backdrop clicks\<close>

lemma click_descendant: "\<not> is_overlay el \<Longrightarrow> click apt el s = onClick apt el s"
  by (simp add: click_def handleBackdropClick_def)

lemma click_backdrop:
  "is_overlay el \<Longrightarrow>
   click apt el s = (if lightboxOpen s then setLightboxOpen False s else onClose s)"
  by (simp add: click_def handleBackdropClick_def)

text \<open>
  Claim C6 as it is stated says that a click on a descendant of an overlay never
  invokes \<^verbatim>\<open>onClose\<close> and never changes the lightbox flag. The close button and
  the expand control are descendants of the main overlay, inside the dialog panel,
  and have handlers of their own: a click on the first invokes \<^verbatim>\<open>onClose\<close>, a
  click on the second opens the lightbox.
\<close>

theorem descendant_click_counterexample:
  "\<not> is_overlay CloseButton \<and>
   rendered flat_A101 init CloseButton \<and>
   closeCalls init = 0 \<and>
   closeCalls (step flat_A101 init (Click CloseButton)) = 1 \<and>
   \<not> is_overlay ExpandButton \<and>
   rendered flat_A101 init ExpandButton \<and>
   \<not> lightboxOpen init \<and>
   lightboxOpen (step flat_A101 init (Click ExpandButton))"
  by (simp add: is_overlay_def init_def click_def handleBackdropClick_def onClose_def
      setLightboxOpen_def gallery_shown_def flat_A101_def)

text \<open>
  Claim C6, amended. Backdrop dismissal fires only when the target of the click is
  an overlay itself: for a click on a descendant the handler of the overlay does
  nothing, and the click does what the handler of the descendant does. So a click
  on a descendant other than the close button never invokes \<^verbatim>\<open>onClose\<close>; a click
  on a descendant other than the gallery image, the expand control and the close
  control of the lightbox never changes the lightbox flag; a click on plain
  content of the dialog panel or on the image of the lightbox changes nothing. A
  click on the backdrop of the lightbox closes only the lightbox, and a click on
  the backdrop of the main modal, with the lightbox closed, invokes \<^verbatim>\<open>onClose\<close>.
\<close>

theorem backdrop_dismissal:
  "handleBackdropClick False s = s \<and>
   (\<not> is_overlay el \<longrightarrow> click apt el s = onClick apt el s) \<and>
   (\<not> is_overlay el \<and> el \<noteq> CloseButton \<longrightarrow>
      closeCalls (click apt el s) = closeCalls s) \<and>
   (\<not> is_overlay el \<and> el \<noteq> GalleryImage \<and> el \<noteq> ExpandButton \<and> el \<noteq> LightboxClose \<longrightarrow>
      lightboxOpen (click apt el s) = lightboxOpen s) \<and>
   (el \<in> set [Dialog, BedroomLine, BathroomLine, AreaLine, PriceLine, BreakdownPanel,
        ContactPrompt, GalleryHeading, Disclaimer, CallToAction, LightboxImage] \<longrightarrow>
      click apt el s = s) \<and>
   (rendered apt s LightboxOverlay \<longrightarrow>
      step apt s (Click LightboxOverlay) = s\<lparr>lightboxOpen := False\<rparr>) \<and>
   (\<not> lightboxOpen s \<longrightarrow>
      step apt s (Click Overlay) = s\<lparr>closeCalls := Suc (closeCalls s)\<rparr>)"
proof -
  have a: "handleBackdropClick False s = s"
    by (simp add: handleBackdropClick_def)
  have b: "\<not> is_overlay el \<longrightarrow> click apt el s = onClick apt el s"
    by (simp add: click_descendant)
  have c: "\<not> is_overlay el \<and> el \<noteq> CloseButton \<longrightarrow> closeCalls (click apt el s) = closeCalls s"
    by (cases el)
      (auto simp: click_descendant setLightboxOpen_def setCurrentImageIndex_def
        split: option.splits)
  have d: "\<not> is_overlay el \<and> el \<noteq> GalleryImage \<and> el \<noteq> ExpandButton \<and> el \<noteq> LightboxClose \<longrightarrow>
      lightboxOpen (click apt el s) = lightboxOpen s"
    by (cases el)
      (auto simp: click_descendant onClose_def setCurrentImageIndex_def split: option.splits)
  have e: "el \<in> set [Dialog, BedroomLine, BathroomLine, AreaLine, PriceLine, BreakdownPanel,
        ContactPrompt, GalleryHeading, Disclaimer, CallToAction, LightboxImage] \<longrightarrow>
      click apt el s = s"
    by (auto simp: click_def is_overlay_def handleBackdropClick_def)
  have f: "rendered apt s LightboxOverlay \<longrightarrow>
      step apt s (Click LightboxOverlay) = s\<lparr>lightboxOpen := False\<rparr>"
    by (simp add: click_backdrop is_overlay_def lightbox_shown_def setLightboxOpen_def)
  have g: "\<not> lightboxOpen s \<longrightarrow>
      step apt s (Click Overlay) = s\<lparr>closeCalls := Suc (closeCalls s)\<rparr>"
    by (simp add: click_backdrop is_overlay_def onClose_def)
  from a b c d e f g show ?thesis
    by blast
qed

theorem backdrop_dismissal_witness:
  "\<not> is_overlay Dialog \<and>
   click flat_A101 Dialog (init\<lparr>lightboxOpen := True\<rparr>) = init\<lparr>lightboxOpen := True\<rparr> \<and>
   rendered flat_A101 (init\<lparr>lightboxOpen := True\<rparr>) LightboxOverlay \<and>
   step flat_A101 (init\<lparr>lightboxOpen := True\<rparr>) (Click LightboxOverlay) = init \<and>
   step flat_A101 init (Click Overlay) = init\<lparr>closeCalls := 1\<rparr>"
proof -
  have o: "\<not> is_overlay Dialog"
    by (simp add: is_overlay_def)
  have r: "rendered flat_A101 (init\<lparr>lightboxOpen := True\<rparr>) LightboxOverlay"
    by (simp add: lightbox_shown_def flat_A101_def)
  have c: "\<not> lightboxOpen init"
    by (simp add: init_def)
  have e: "(init\<lparr>lightboxOpen := True\<rparr>)\<lparr>lightboxOpen := False\<rparr> = init"
    by (simp add: init_def)
  have k: "init\<lparr>closeCalls := Suc (closeCalls init)\<rparr> = init\<lparr>closeCalls := 1\<rparr>"
    by (simp add: init_def)
  have "click flat_A101 Dialog (init\<lparr>lightboxOpen := True\<rparr>) = init\<lparr>lightboxOpen := True\<rparr>"
    using backdrop_dismissal [of "init\<lparr>lightboxOpen := True\<rparr>" Dialog flat_A101] by simp
  moreover have "step flat_A101 (init\<lparr>lightboxOpen := True\<rparr>) (Click LightboxOverlay) = init"
    using backdrop_dismissal [of "init\<lparr>lightboxOpen := True\<rparr>" Dialog flat_A101] r e
    by (simp del: step.simps)
  moreover have "step flat_A101 init (Click Overlay) = init\<lparr>closeCalls := 1\<rparr>"
    using backdrop_dismissal [of init Dialog flat_A101] c k
    by (simp del: step.simps)
  ultimately show ?thesis
    using o r by blast
qed

end
